theory Spec2Isabelle
  imports Main
begin

section \<open>Data model\<close>

text \<open>
  The table \<^verbatim>\<open>BedrockQuotaTracking\<close> holds one item per region. An item is a Python
  dict; its key attribute \<^verbatim>\<open>region\<close> is always present, every other attribute may
  be absent (the code itself reads \<^verbatim>\<open>last_reset\<close> with a default), hence the
  options. The numeric attributes are counters and epoch seconds: integers, within the
  38 significant digits a DynamoDB number carries. The same record is the stored item and
  the in-memory copy of it that \<^verbatim>\<open>table.scan()\<close> hands to the handler. In the copy a
  number that is present is a \<^verbatim>\<open>Decimal\<close> (boto3 deserialises every stored number to
  one); the fields hold its value. The one number the code assigns in memory,
  \<^verbatim>\<open>endpoint['used_quota'] = 0\<close>, is a Python integer, and it is only ever subtracted
  from a \<^verbatim>\<open>Decimal\<close>, where it behaves as the \<^verbatim>\<open>Decimal\<close> 0.
\<close>

record endpoint =
  region :: string
  total_quota :: "int option"
  used_quota :: "int option"
  last_reset :: "int option"
  request_count :: "int option"

text \<open>The table itself: the items in the order in which a scan returns them.\<close>

type_synonym table = "endpoint list"

text \<open>The exceptions the code can raise; \<open>ClientError\<close> carries \<^verbatim>\<open>str(e)\<close>.\<close>

datatype error =
    ValueError
  | KeyError string
  | TypeError
  | AttributeError
  | RecursionError
  | InvalidOperation
  | ClientError string

section \<open>Python numbers\<close>

text \<open>
  An operand of the handler's arithmetic is a Python integer or a \<^verbatim>\<open>Decimal\<close> of
  integral value.
\<close>

datatype number = PyInt int | PyDecimal int

text \<open>
  \<^verbatim>\<open>x // 60\<close>. On a Python integer it is floor division, as \<open>div\<close> on \<open>int\<close> is. On a
  \<^verbatim>\<open>Decimal\<close> the quotient is truncated toward zero, and the default context (28 digits
  of precision) raises \<^verbatim>\<open>InvalidOperation\<close> once the quotient needs more than 28 digits.
\<close>

definition floordiv_60 :: "number \<Rightarrow> error + int" where
  "floordiv_60 x =
     (case x of
        PyInt i \<Rightarrow> Inr (i div 60)
      | PyDecimal v \<Rightarrow>
          (let q = \<bar>v\<bar> div 60
           in if q \<ge> 10 ^ 28 then Inl InvalidOperation else Inr (sgn v * q)))"

text \<open>The number of decimal digits of a coefficient.\<close>

fun ndigits :: "nat \<Rightarrow> nat" where
  "ndigits n = (if n < 10 then 1 else Suc (ndigits (n div 10)))"

declare ndigits.simps [simp del]

text \<open>
  Dropping the last \<open>k\<close> digits of a coefficient under \<^verbatim>\<open>ROUND_HALF_EVEN\<close>, the rounding
  of the default context.
\<close>

definition round_half_even :: "nat \<Rightarrow> nat \<Rightarrow> nat" where
  "round_half_even n k =
     (let q = n div 10 ^ k; r = n mod 10 ^ k
      in if 2 * r > 10 ^ k \<or> (2 * r = 10 ^ k \<and> odd q) then q + 1 else q)"

text \<open>
  The result of a \<^verbatim>\<open>Decimal\<close> operation is rounded to the 28 significant digits of the
  default context; a value of at most 28 digits is kept as it is.
\<close>

definition decimal_fix :: "int \<Rightarrow> int" where
  "decimal_fix v =
     (let n = nat \<bar>v\<bar>; k = ndigits n - 28
      in if k = 0 then v else sgn v * int (round_half_even n k * 10 ^ k))"

text \<open>\<^verbatim>\<open>a - b\<close> where \<open>a\<close> is a \<^verbatim>\<open>Decimal\<close>: the exact difference, rounded.\<close>

definition decimal_sub :: "int \<Rightarrow> int \<Rightarrow> int" where
  "decimal_sub a b = decimal_fix (a - b)"

section \<open>The quota store\<close>

text \<open>
  The store is taken to answer every call: a failure of the connection to DynamoDB is not
  part of the model. What it rejects by its own rules is (see \<open>update_quota\<close>).
\<close>

text \<open>\<^verbatim>\<open>get_available_endpoints\<close>: \<^verbatim>\<open>table.scan()\<close> and \<^verbatim>\<open>response.get('Items', [])\<close>.\<close>

definition get_available_endpoints :: "table \<Rightarrow> endpoint list" where
  "get_available_endpoints tbl = tbl"

text \<open>The stored item with a given key, if there is one.\<close>

definition stored :: "table \<Rightarrow> string \<Rightarrow> endpoint option" where
  "stored tbl k = find (\<lambda>it. region it = k) tbl"

text \<open>
  \<^verbatim>\<open>table.update_item(Key={'region': k}, UpdateExpression="SET ...")\<close> where the
  expression is the function \<open>f\<close> on the stored item. DynamoDB's update is an upsert:
  when no item has the key, one is created from the key alone and the \<^verbatim>\<open>SET\<close> clause
  applies to it.
\<close>

definition new_item :: "string \<Rightarrow> endpoint" where
  "new_item k = \<lparr>region = k, total_quota = None, used_quota = None,
                 last_reset = None, request_count = None\<rparr>"

fun update_item :: "string \<Rightarrow> (endpoint \<Rightarrow> endpoint) \<Rightarrow> table \<Rightarrow> table" where
  "update_item k f [] = [f (new_item k)]"
| "update_item k f (it # rest) =
     (if region it = k then f it # rest else it # update_item k f rest)"

section \<open>Reset policy\<close>

text \<open>
  \<^verbatim>\<open>endpoint.get('last_reset', 0)\<close>: the \<^verbatim>\<open>Decimal\<close> of the copy, or the Python integer 0
  when the attribute is absent.
\<close>

definition get_last_reset :: "endpoint \<Rightarrow> number" where
  "get_last_reset e = (case last_reset e of None \<Rightarrow> PyInt 0 | Some l \<Rightarrow> PyDecimal l)"

text \<open>
  The guard of \<^verbatim>\<open>reset_if_needed\<close>, \<^verbatim>\<open>current_time // 60 > last_reset // 60\<close>, where
  \<^verbatim>\<open>current_time\<close> is the Python integer \<^verbatim>\<open>int(time.time())\<close>. The right operand can
  raise.
\<close>

definition should_reset :: "int \<Rightarrow> number \<Rightarrow> error + bool" where
  "should_reset current_time lr =
     (case floordiv_60 lr of
        Inl err \<Rightarrow> Inl err
      | Inr q \<Rightarrow> Inr (current_time div 60 > q))"

text \<open>
  \<^verbatim>\<open>reset_if_needed(endpoint)\<close>. The reading of the clock, \<^verbatim>\<open>int(time.time())\<close>, is the
  first argument. The function mutates the table and the dict it was given; the model
  returns the dict, or the exception raised, and the table as the call leaves it.
\<close>

definition reset_if_needed :: "int \<Rightarrow> endpoint \<Rightarrow> table \<Rightarrow> (error + endpoint) \<times> table" where
  "reset_if_needed current_time e tbl =
     (case should_reset current_time (get_last_reset e) of
        Inl err \<Rightarrow> (Inl err, tbl)
      | Inr due \<Rightarrow>
          if due
          then (Inr (e\<lparr>used_quota := Some 0\<rparr>),
                update_item (region e)
                  (\<lambda>it. it\<lparr>used_quota := Some 0, last_reset := Some current_time\<rparr>) tbl)
          else (Inr e, tbl))"

text \<open>
  The loop \<^verbatim>\<open>for endpoint in endpoints: reset_if_needed(endpoint)\<close>. Every call reads the
  clock again: \<open>clock i\<close> is the reading of the \<open>i\<close>-th call. An exception ends the loop;
  the resets written before it stay in the table.
\<close>

fun reset_loop :: "(nat \<Rightarrow> int) \<Rightarrow> nat \<Rightarrow> endpoint list \<Rightarrow> table
    \<Rightarrow> (error + endpoint list) \<times> table" where
  "reset_loop clock i [] tbl = (Inr [], tbl)"
| "reset_loop clock i (e # es) tbl =
     (case reset_if_needed (clock i) e tbl of
        (Inl err, tbl') \<Rightarrow> (Inl err, tbl')
      | (Inr e', tbl') \<Rightarrow>
          (case reset_loop clock (Suc i) es tbl' of
             (Inl err, tbl'') \<Rightarrow> (Inl err, tbl'')
           | (Inr es', tbl'') \<Rightarrow> (Inr (e' # es'), tbl'')))"

section \<open>Endpoint selection\<close>

text \<open>
  The key function of the selection, \<^verbatim>\<open>lambda x: x['total_quota'] - x['used_quota']\<close>.
  The left operand is the \<^verbatim>\<open>Decimal\<close> of the scan, so the difference is a \<^verbatim>\<open>Decimal\<close>.
\<close>

definition headroom :: "endpoint \<Rightarrow> error + int" where
  "headroom x =
     (case total_quota x of
        None \<Rightarrow> Inl (KeyError ''total_quota'')
      | Some t \<Rightarrow>
          (case used_quota x of
             None \<Rightarrow> Inl (KeyError ''used_quota'')
           | Some u \<Rightarrow> Inr (decimal_sub t u)))"

text \<open>
  Python's \<^verbatim>\<open>max(iterable, key=...)\<close>: the running maximum is replaced only by an
  element whose key is strictly greater, and an empty iterable raises \<^verbatim>\<open>ValueError\<close>.
\<close>

fun max_loop :: "endpoint \<Rightarrow> int \<Rightarrow> endpoint list \<Rightarrow> error + endpoint" where
  "max_loop best best_key [] = Inr best"
| "max_loop best best_key (x # xs) =
     (case headroom x of
        Inl err \<Rightarrow> Inl err
      | Inr k \<Rightarrow> if k > best_key then max_loop x k xs else max_loop best best_key xs)"

definition select_best_endpoint :: "endpoint list \<Rightarrow> error + endpoint" where
  "select_best_endpoint endpoints =
     (case endpoints of
        [] \<Rightarrow> Inl ValueError
      | x # xs \<Rightarrow>
          (case headroom x of
             Inl err \<Rightarrow> Inl err
           | Inr k \<Rightarrow> max_loop x k xs))"

section \<open>Usage accounting\<close>

text \<open>
  \<^verbatim>\<open>update_quota(region, increment=1)\<close>. The expression
  \<^verbatim>\<open>SET used_quota = used_quota + :inc, request_count = request_count + :one\<close> reads both
  attributes of the stored item; DynamoDB rejects it when the item or one of them does
  not exist, which boto3 raises as \<^verbatim>\<open>ClientError\<close>, and then nothing is written. The
  sums are those of the store, exact on the numbers of the data model.
\<close>

definition validation_error :: string where
  "validation_error = ''An error occurred (ValidationException) when calling the UpdateItem operation: The provided expression refers to an attribute that does not exist in the item''"

definition update_quota :: "string \<Rightarrow> int \<Rightarrow> table \<Rightarrow> error + table" where
  "update_quota rgn increment tbl =
     (case stored tbl rgn of
        None \<Rightarrow> Inl (ClientError validation_error)
      | Some cur \<Rightarrow>
          (case used_quota cur of
             None \<Rightarrow> Inl (ClientError validation_error)
           | Some u \<Rightarrow>
               (case request_count cur of
                  None \<Rightarrow> Inl (ClientError validation_error)
                | Some c \<Rightarrow>
                    Inr (update_item rgn
                          (\<lambda>it. it\<lparr>used_quota := Some (u + increment),
                                    request_count := Some (c + 1)\<rparr>) tbl))))"

section \<open>The request handler\<close>

text \<open>
  A Python float, as far as its truth value goes: a finite one is \<open>m * 2 ^ e\<close>;
  \<^verbatim>\<open>json.loads\<close> also accepts \<^verbatim>\<open>NaN\<close> and \<^verbatim>\<open>Infinity\<close>.
\<close>

datatype pyfloat = Finite int int | Infinity bool | NaN

text \<open>The values \<^verbatim>\<open>json.loads\<close> returns.\<close>

datatype json =
    JNull
  | JBool bool
  | JNumber int
  | JFloat pyfloat
  | JString string
  | JArray "json list"
  | JObject "(string \<times> json) list"

text \<open>
  The inbound event, as far as the handler looks at it: whether it has a \<^verbatim>\<open>"body"\<close>
  key, and what \<^verbatim>\<open>json.loads\<close> does with the value.
\<close>

datatype event =
    BodyAbsent \<comment> \<open>no \<^verbatim>\<open>"body"\<close> key: \<^verbatim>\<open>event["body"]\<close> raises \<^verbatim>\<open>KeyError\<close>\<close>
  | BodyNull \<comment> \<open>the value is \<^verbatim>\<open>None\<close>, not text: \<^verbatim>\<open>json.loads\<close> raises \<^verbatim>\<open>TypeError\<close>\<close>
  | BodyMalformed \<comment> \<open>\<^verbatim>\<open>json.loads\<close> raises \<^verbatim>\<open>JSONDecodeError\<close> or another \<^verbatim>\<open>ValueError\<close>\<close>
  | BodyTooDeep \<comment> \<open>nesting beyond the recursion limit: \<^verbatim>\<open>json.loads\<close> raises \<^verbatim>\<open>RecursionError\<close>\<close>
  | BodyJson json \<comment> \<open>\<^verbatim>\<open>json.loads\<close> returns the value\<close>

definition json_loads_body :: "event \<Rightarrow> error + json" where
  "json_loads_body ev =
     (case ev of
        BodyAbsent \<Rightarrow> Inl (KeyError ''body'')
      | BodyNull \<Rightarrow> Inl TypeError
      | BodyMalformed \<Rightarrow> Inl ValueError
      | BodyTooDeep \<Rightarrow> Inl RecursionError
      | BodyJson j \<Rightarrow> Inr j)"

text \<open>\<^verbatim>\<open>body.get("prompt")\<close>: only a dict has \<^verbatim>\<open>get\<close>; a missing key gives \<^verbatim>\<open>None\<close>.\<close>

definition get_prompt :: "json \<Rightarrow> error + json" where
  "get_prompt b =
     (case b of
        JObject kvs \<Rightarrow> (case map_of kvs ''prompt'' of None \<Rightarrow> Inr JNull | Some p \<Rightarrow> Inr p)
      | _ \<Rightarrow> Inl AttributeError)"

text \<open>Python's truth value of a parsed JSON value, for \<^verbatim>\<open>if not prompt\<close>.\<close>

fun truthy :: "json \<Rightarrow> bool" where
  "truthy JNull = False"
| "truthy (JBool b) = b"
| "truthy (JNumber n) = (n \<noteq> 0)"
| "truthy (JFloat (Finite m e)) = (m \<noteq> 0)"
| "truthy (JFloat (Infinity s)) = True"
| "truthy (JFloat NaN) = True"
| "truthy (JString s) = (s \<noteq> [])"
| "truthy (JArray xs) = (xs \<noteq> [])"
| "truthy (JObject kvs) = (kvs \<noteq> [])"

text \<open>
  The downstream collaborator: creating the Bedrock client for a region can raise, the
  invocation (or decoding its answer) can raise, or it returns a result.
\<close>

datatype invocation =
    ClientInitError string
  | InvokeError string
  | Result string

datatype body = Text string | Invoked string string

record response =
  statusCode :: nat
  body :: body

text \<open>The first \<^verbatim>\<open>try\<close> block up to the check of the prompt.\<close>

definition read_prompt :: "event \<Rightarrow> error + json" where
  "read_prompt ev =
     (case json_loads_body ev of
        Inl err \<Rightarrow> Inl err
      | Inr b \<Rightarrow> get_prompt b)"

text \<open>
  The second \<^verbatim>\<open>try\<close> block: scan, reset pass, selection, downstream call and, after it
  has returned, the usage update. Only \<^verbatim>\<open>ClientError\<close> is caught here.
\<close>

definition serve :: "(nat \<Rightarrow> int) \<Rightarrow> (string \<Rightarrow> json \<Rightarrow> invocation) \<Rightarrow> json \<Rightarrow> table
    \<Rightarrow> (error + response) \<times> table" where
  "serve clock bedrock prompt tbl =
     (let endpoints = get_available_endpoints tbl in
      if endpoints = []
      then (Inr \<lparr>statusCode = 500, body = Text ''No endpoints available''\<rparr>, tbl)
      else
        (case reset_loop clock 0 endpoints tbl of
           (Inl err, tbl1) \<Rightarrow> (Inl err, tbl1)
         | (Inr endpoints', tbl1) \<Rightarrow>
             (case select_best_endpoint endpoints' of
                Inl err \<Rightarrow> (Inl err, tbl1)
              | Inr selected_endpoint \<Rightarrow>
                  (case bedrock (region selected_endpoint) prompt of
                     ClientInitError msg \<Rightarrow>
                       (Inr \<lparr>statusCode = 500,
                             body = Text (''Error initializing Bedrock client: '' @ msg)\<rparr>, tbl1)
                   | InvokeError msg \<Rightarrow>
                       (Inr \<lparr>statusCode = 500,
                             body = Text (''Bedrock invocation failed: '' @ msg)\<rparr>, tbl1)
                   | Result res \<Rightarrow>
                       (case update_quota (region selected_endpoint) 1 tbl1 of
                          Inl (ClientError msg) \<Rightarrow>
                            (Inr \<lparr>statusCode = 500, body = Text msg\<rparr>, tbl1)
                        | Inl err \<Rightarrow> (Inl err, tbl1)
                        | Inr tbl2 \<Rightarrow>
                            (Inr \<lparr>statusCode = 200,
                                  body = Invoked (region selected_endpoint) res\<rparr>, tbl2))))))"

text \<open>
  \<^verbatim>\<open>lambda_handler(event, context)\<close>. The result is the response, or the exception that
  leaves the handler, together with the table as the call leaves it.
\<close>

definition lambda_handler :: "(nat \<Rightarrow> int) \<Rightarrow> (string \<Rightarrow> json \<Rightarrow> invocation) \<Rightarrow> event \<Rightarrow> table
    \<Rightarrow> (error + response) \<times> table" where
  "lambda_handler clock bedrock ev tbl =
     (case read_prompt ev of
        Inl ValueError \<Rightarrow> (Inr \<lparr>statusCode = 400, body = Text ''Invalid input''\<rparr>, tbl)
      | Inl (KeyError k) \<Rightarrow> (Inr \<lparr>statusCode = 400, body = Text ''Invalid input''\<rparr>, tbl)
      | Inl err \<Rightarrow> (Inl err, tbl)
      | Inr prompt \<Rightarrow>
          if \<not> truthy prompt
          then (Inr \<lparr>statusCode = 400, body = Text ''Prompt is required''\<rparr>, tbl)
          else serve clock bedrock prompt tbl)"

section \<open>State predicates\<close>

text \<open>The value of an operand.\<close>

definition number_value :: "number \<Rightarrow> int" where
  "number_value x = (case x of PyInt i \<Rightarrow> i | PyDecimal v \<Rightarrow> v)"

text \<open>The invariant on counters: no stored \<^verbatim>\<open>used_quota\<close> is negative.\<close>

definition quota_nonneg :: "table \<Rightarrow> bool" where
  "quota_nonneg tbl =
     list_all (\<lambda>it. case used_quota it of None \<Rightarrow> True | Some u \<Rightarrow> 0 \<le> u) tbl"

text \<open>
  Between two states of the table: the same regions in the same order, and no
  \<^verbatim>\<open>last_reset\<close> has gone down (an absent one counts as 0, as the code reads it).
\<close>

definition last_reset_not_decreased :: "table \<Rightarrow> table \<Rightarrow> bool" where
  "last_reset_not_decreased tbl tbl' =
     list_all2 (\<lambda>a b. region b = region a
        \<and> number_value (get_last_reset a) \<le> number_value (get_last_reset b)) tbl tbl'"

text \<open>
  Item \<open>b\<close> is item \<open>a\<close> after a window reset: \<^verbatim>\<open>used_quota\<close> is 0, \<^verbatim>\<open>last_reset\<close> is
  set, everything else is as in \<open>a\<close>.
\<close>

definition window_reset :: "endpoint \<Rightarrow> endpoint \<Rightarrow> bool" where
  "window_reset a b \<longleftrightarrow>
     last_reset b \<noteq> None \<and> b = a\<lparr>used_quota := Some 0, last_reset := last_reset b\<rparr>"

text \<open>Two states of the table that differ by window resets only.\<close>

definition only_resets :: "table \<Rightarrow> table \<Rightarrow> bool" where
  "only_resets tbl tbl' = list_all2 (\<lambda>a b. b = a \<or> window_reset a b) tbl tbl'"

text \<open>An item that has all five attributes, for the scenarios below.\<close>

abbreviation item :: "string \<Rightarrow> int \<Rightarrow> int \<Rightarrow> int \<Rightarrow> int \<Rightarrow> endpoint" where
  "item r t u l c \<equiv> \<lparr>region = r, total_quota = Some t, used_quota = Some u,
      last_reset = Some l, request_count = Some c\<rparr>"

section \<open>Facts about the store\<close>

lemma stored_update_item:
  assumes "\<And>it. region (f it) = region it"
  shows "stored (update_item k f tbl) k' =
     (if k' = k then Some (f (case stored tbl k of None \<Rightarrow> new_item k | Some it \<Rightarrow> it))
      else stored tbl k')"
  using assms by (induction tbl) (auto simp: stored_def new_item_def)

lemma update_item_split:
  assumes "stored tbl k = Some cur"
  shows "\<exists>pre post. tbl = pre @ cur # post \<and> update_item k f tbl = pre @ f cur # post
           \<and> k \<notin> region ` set pre \<and> region cur = k"
  using assms
proof (induction tbl)
  case Nil
  then show ?case by (simp add: stored_def)
next
  case (Cons it rest)
  show ?case
  proof (cases "region it = k")
    case True
    then have "cur = it" using Cons.prems by (simp add: stored_def)
    then have "it # rest = [] @ cur # rest \<and> update_item k f (it # rest) = [] @ f cur # rest
        \<and> k \<notin> region ` set [] \<and> region cur = k"
      using True by simp
    then show ?thesis by blast
  next
    case False
    then have "stored rest k = Some cur" using Cons.prems by (simp add: stored_def)
    from Cons.IH[OF this] obtain pre post where
      "rest = pre @ cur # post" "update_item k f rest = pre @ f cur # post"
      "k \<notin> region ` set pre" "region cur = k" by blast
    then have "it # rest = (it # pre) @ cur # post
        \<and> update_item k f (it # rest) = (it # pre) @ f cur # post
        \<and> k \<notin> region ` set (it # pre) \<and> region cur = k"
      using False by auto
    then show ?thesis by blast
  qed
qed

lemma stored_Some_iff: "(\<exists>cur. stored tbl k = Some cur) \<longleftrightarrow> k \<in> region ` set tbl"
  by (induction tbl) (auto simp: stored_def)

lemma stored_distinct:
  "distinct (map region tbl) \<Longrightarrow> e \<in> set tbl \<Longrightarrow> stored tbl (region e) = Some e"
  by (induction tbl) (auto simp: stored_def)

text \<open>A usage update that the store accepts changes exactly the first item of the region.\<close>

lemma update_quota_split:
  assumes "update_quota rgn inc tbl = Inr tbl'"
  shows "\<exists>pre cur post u c. tbl = pre @ cur # post \<and> region cur = rgn
       \<and> rgn \<notin> region ` set pre
       \<and> used_quota cur = Some u \<and> request_count cur = Some c
       \<and> tbl' = pre @ cur\<lparr>used_quota := Some (u + inc), request_count := Some (c + 1)\<rparr> # post"
proof -
  from assms obtain cur u c where cur: "stored tbl rgn = Some cur"
      "used_quota cur = Some u" "request_count cur = Some c"
      and t': "tbl' = update_item rgn
         (\<lambda>it. it\<lparr>used_quota := Some (u + inc), request_count := Some (c + 1)\<rparr>) tbl"
    by (auto simp: update_quota_def split: option.splits)
  from update_item_split[OF cur(1), of
      "\<lambda>it. it\<lparr>used_quota := Some (u + inc), request_count := Some (c + 1)\<rparr>"]
  obtain pre post where "tbl = pre @ cur # post"
     "update_item rgn (\<lambda>it. it\<lparr>used_quota := Some (u + inc), request_count := Some (c + 1)\<rparr>) tbl
       = pre @ cur\<lparr>used_quota := Some (u + inc), request_count := Some (c + 1)\<rparr> # post"
     "rgn \<notin> region ` set pre" "region cur = rgn" by blast
  then show ?thesis using cur t' by blast
qed

section \<open>Decimal arithmetic\<close>

lemma ndigits_le: "0 < k \<Longrightarrow> n < 10 ^ k \<Longrightarrow> ndigits n \<le> k"
proof (induction k arbitrary: n)
  case 0
  then show ?case by simp
next
  case (Suc k)
  show ?case
  proof (cases "n < 10")
    case True
    then show ?thesis by (simp add: ndigits.simps)
  next
    case False
    then have "0 < k" using Suc.prems by (cases k) auto
    moreover have "n div 10 < 10 ^ k"
      using Suc.prems by (simp add: less_mult_imp_div_less mult.commute)
    ultimately have "ndigits (n div 10) \<le> k" by (rule Suc.IH)
    then show ?thesis using False by (simp add: ndigits.simps)
  qed
qed

text \<open>A value of at most 28 digits is not rounded.\<close>

lemma decimal_fix_small: "\<bar>v\<bar> < 10 ^ 28 \<Longrightarrow> decimal_fix v = v"
proof -
  assume a: "\<bar>v\<bar> < 10 ^ 28"
  have "nat \<bar>v\<bar> < 10 ^ 28" using a by (simp add: nat_less_iff)
  then have "ndigits (nat \<bar>v\<bar>) \<le> 28" by (intro ndigits_le) simp_all
  then show ?thesis by (simp add: decimal_fix_def Let_def)
qed

lemma decimal_sub_exact: "\<bar>a - b\<bar> < 10 ^ 28 \<Longrightarrow> decimal_sub a b = a - b"
  by (simp add: decimal_sub_def decimal_fix_small)

text \<open>Two values of 31 digits that round to the same 28.\<close>

lemma ndigits_10_30: "ndigits 1000000000000000000000000000000 = 31"
  by (simp add: ndigits.simps)

lemma ndigits_10_30_1: "ndigits 1000000000000000000000000000001 = 31"
  by (simp add: ndigits.simps)

lemma decimal_fix_10_30: "decimal_fix (10 ^ 30) = 10 ^ 30"
  by (simp add: decimal_fix_def round_half_even_def ndigits_10_30)

lemma decimal_fix_10_30_1: "decimal_fix (10 ^ 30 + 1) = 10 ^ 30"
  by (simp add: decimal_fix_def round_half_even_def ndigits_10_30_1)

section \<open>The reset guard\<close>

lemma floordiv_60_decimal:
  assumes "0 \<le> v" and "v < 60 * 10 ^ 28"
  shows "floordiv_60 (PyDecimal v) = Inr (v div 60)"
proof -
  have "v div 60 < 10 ^ 28" using assms(2) by linarith
  then show ?thesis using assms(1) by (cases "v = 0") (simp_all add: floordiv_60_def Let_def)
qed

text \<open>
  On a Python integer, and on a \<^verbatim>\<open>Decimal\<close> from 0 up to \<open>60 * 10 ^ 28\<close>, the guard
  compares the two window numbers.
\<close>

lemma should_reset_window:
  assumes "x = PyInt lr \<or> (x = PyDecimal lr \<and> 0 \<le> lr \<and> lr < 60 * 10 ^ 28)"
  shows "should_reset now x = Inr (lr div 60 < now div 60)"
  using assms
proof
  assume "x = PyInt lr"
  then show ?thesis by (simp add: should_reset_def floordiv_60_def)
next
  assume "x = PyDecimal lr \<and> 0 \<le> lr \<and> lr < 60 * 10 ^ 28"
  then show ?thesis using floordiv_60_decimal[of lr] by (simp add: should_reset_def)
qed

text \<open>
  A later window means that a minute boundary, a multiple of 60, lies after the last
  reset and not after the current time.
\<close>

lemma later_window_boundary:
  "(lr::int) div 60 < now div 60 \<longleftrightarrow> (\<exists>k. lr < 60 * k \<and> 60 * k \<le> now)"
proof
  assume "lr div 60 < now div 60"
  then have "lr < 60 * (now div 60) \<and> 60 * (now div 60) \<le> now" by linarith
  then show "\<exists>k. lr < 60 * k \<and> 60 * k \<le> now" by blast
next
  assume "\<exists>k. lr < 60 * k \<and> 60 * k \<le> now"
  then obtain k where "lr < 60 * k" "60 * k \<le> now" by blast
  then have "lr div 60 < k" "k \<le> now div 60" by linarith+
  then show "lr div 60 < now div 60" by simp
qed

text \<open>Whatever the operand, a reset that is due lies strictly in the past.\<close>

lemma should_reset_later:
  assumes "should_reset now x = Inr True"
  shows "number_value x < now"
proof (cases x)
  case (PyInt i)
  then have "i div 60 < now div 60" using assms by (simp add: should_reset_def floordiv_60_def)
  then have "i < now" by linarith
  then show ?thesis using PyInt by (simp add: number_value_def)
next
  case (PyDecimal v)
  then have q: "sgn v * (\<bar>v\<bar> div 60) < now div 60"
    using assms by (simp add: should_reset_def floordiv_60_def Let_def split: if_splits)
  have "v < now"
  proof (cases "v < 0")
    case True
    then have "- ((- v) div 60) < now div 60" using q by simp
    then show ?thesis using True by linarith
  next
    case False
    then have "v div 60 < now div 60" using q by (cases "v = 0") simp_all
    then show ?thesis by linarith
  qed
  then show ?thesis using PyDecimal by (simp add: number_value_def)
qed

text \<open>
  C2, as amended. For a last reset held as a Python integer, and for one held as the
  \<^verbatim>\<open>Decimal\<close> of a scan with a value from 0 up to \<open>60 * 10 ^ 28\<close>, the check holds if
  and only if \<open>now\<close> falls in a strictly later 60-second window than the last reset,
  that is, a window boundary separates them with the last reset before it. It is false
  when the two windows are equal and whenever \<open>now \<le> lr\<close>, also when \<open>now\<close> lies
  in an earlier window.
\<close>

theorem should_reset_strictly_later_window:
  assumes "x = PyInt lr \<or> (x = PyDecimal lr \<and> 0 \<le> lr \<and> lr < 60 * 10 ^ 28)"
  shows "should_reset now x = Inr (\<exists>k. lr < 60 * k \<and> 60 * k \<le> now)
   \<and> (now div 60 = lr div 60 \<longrightarrow> should_reset now x = Inr False)
   \<and> (now \<le> lr \<longrightarrow> should_reset now x = Inr False)"
proof -
  have w: "should_reset now x = Inr (lr div 60 < now div 60)"
    by (rule should_reset_window[OF assms])
  have a: "should_reset now x = Inr (\<exists>k. lr < 60 * k \<and> 60 * k \<le> now)"
    using w by (simp only: later_window_boundary[of lr now])
  have b: "now div 60 = lr div 60 \<longrightarrow> should_reset now x = Inr False"
    using w by simp
  have "now \<le> lr \<longrightarrow> \<not> lr div 60 < now div 60"
    by (auto dest: zdiv_mono1[of now lr 60])
  then have c: "now \<le> lr \<longrightarrow> should_reset now x = Inr False"
    using w by simp
  show ?thesis using a b c by blast
qed

text \<open>
  The theorem at work on scanned values: 119 and 61 share a window, 61 is before 119,
  and 120 opens the window after that of 119.
\<close>

theorem should_reset_strictly_later_window_witness:
  "(0::int) \<le> 61 \<and> (61::int) < 60 * 10 ^ 28
   \<and> (119::int) div 60 = 61 div 60 \<and> should_reset 119 (PyDecimal 61) = Inr False
   \<and> (61::int) \<le> 119 \<and> should_reset 61 (PyDecimal 119) = Inr False
   \<and> should_reset 120 (PyDecimal 119) = Inr True
   \<and> should_reset 120 (PyInt 119) = Inr True"
proof -
  have r: "(0::int) \<le> 61 \<and> (61::int) < 60 * 10 ^ 28" by simp
  have h61: "PyDecimal 61 = PyInt 61
      \<or> (PyDecimal 61 = PyDecimal 61 \<and> (0::int) \<le> 61 \<and> (61::int) < 60 * 10 ^ 28)"
    by simp
  have h119: "PyDecimal 119 = PyInt 119
      \<or> (PyDecimal 119 = PyDecimal 119 \<and> (0::int) \<le> 119 \<and> (119::int) < 60 * 10 ^ 28)"
    by simp
  have i119: "PyInt 119 = PyInt 119
      \<or> (PyInt 119 = PyDecimal 119 \<and> (0::int) \<le> 119 \<and> (119::int) < 60 * 10 ^ 28)"
    by simp
  have w: "(119::int) div 60 = 61 div 60" by simp
  have l: "(61::int) \<le> 119" by simp
  have c: "(\<exists>k::int. 119 < 60 * k \<and> 60 * k \<le> 120) = True"
    using exI[of "\<lambda>k::int. 119 < 60 * k \<and> 60 * k \<le> 120" 2] by simp
  have a1: "should_reset 119 (PyDecimal 61) = Inr False"
    using should_reset_strictly_later_window[OF h61, of 119] w by blast
  have a2: "should_reset 61 (PyDecimal 119) = Inr False"
    using should_reset_strictly_later_window[OF h119, of 61] l by blast
  have a3: "should_reset 120 (PyDecimal 119) = Inr True"
    using should_reset_strictly_later_window[OF h119, of 120] by (simp only: c)
  have a4: "should_reset 120 (PyInt 119) = Inr True"
    using should_reset_strictly_later_window[OF i119, of 120] by (simp only: c)
  show ?thesis using r w l a1 a2 a3 a4 by blast
qed

text \<open>
  C2 as stated fails. Times 0 and 60 fall in different windows (0 and 1), yet no reset is
  due, because the window of the current time is the earlier one. Nor does it hold of
  every integer the store can hand out: the \<^verbatim>\<open>Decimal\<close> -1 lies in the window before that
  of time 0, but its quotient is truncated to 0 and no reset is due; and from
  \<open>60 * 10 ^ 28\<close> on the check raises instead of answering.
\<close>

theorem should_reset_different_windows_counterexample:
  "(0::int) div 60 \<noteq> 60 div 60
   \<and> should_reset 0 (PyInt 60) = Inr False
   \<and> should_reset 0 (PyDecimal 60) = Inr False
   \<and> (0::int) div 60 \<noteq> (- 1) div 60
   \<and> should_reset 0 (PyDecimal (- 1)) = Inr False
   \<and> should_reset 0 (PyDecimal (60 * 10 ^ 28)) = Inl InvalidOperation"
  by (simp add: should_reset_def floordiv_60_def)

section \<open>Selection\<close>

text \<open>
  The loop of \<^verbatim>\<open>max\<close>, started with \<open>best\<close>: either \<open>best\<close> survives and nothing in the
  rest has a greater key, or the result is an element of the rest with a key above that
  of \<open>best\<close>, strictly above everything before it and at least everything after it.
\<close>

lemma max_loop_split:
  assumes "\<forall>x\<in>set xs. \<exists>k. headroom x = Inr k"
  shows "(max_loop best bk xs = Inr best \<and> (\<forall>x\<in>set xs. \<exists>k. headroom x = Inr k \<and> k \<le> bk))
     \<or> (\<exists>pre sel post m. xs = pre @ sel # post \<and> max_loop best bk xs = Inr sel
           \<and> headroom sel = Inr m \<and> bk < m
           \<and> (\<forall>x\<in>set pre. \<exists>k. headroom x = Inr k \<and> k < m)
           \<and> (\<forall>x\<in>set post. \<exists>k. headroom x = Inr k \<and> k \<le> m))"
  using assms
proof (induction xs arbitrary: best bk)
  case Nil
  then show ?case by simp
next
  case (Cons x xs)
  then obtain k where k: "headroom x = Inr k" by auto
  have rest: "\<forall>y\<in>set xs. \<exists>k. headroom y = Inr k" using Cons.prems by simp
  show ?case
  proof (cases "k > bk")
    case True
    from Cons.IH[OF rest, of x k] show ?thesis
    proof
      assume a: "max_loop x k xs = Inr x \<and> (\<forall>y\<in>set xs. \<exists>j. headroom y = Inr j \<and> j \<le> k)"
      have "x # xs = [] @ x # xs \<and> max_loop best bk (x # xs) = Inr x \<and> headroom x = Inr k \<and> bk < k
          \<and> (\<forall>y\<in>set []. \<exists>j. headroom y = Inr j \<and> j < k)
          \<and> (\<forall>y\<in>set xs. \<exists>j. headroom y = Inr j \<and> j \<le> k)"
        using a k True by simp
      then show ?thesis by blast
    next
      assume "\<exists>pre sel post m. xs = pre @ sel # post \<and> max_loop x k xs = Inr sel
           \<and> headroom sel = Inr m \<and> k < m
           \<and> (\<forall>x\<in>set pre. \<exists>k. headroom x = Inr k \<and> k < m)
           \<and> (\<forall>x\<in>set post. \<exists>k. headroom x = Inr k \<and> k \<le> m)"
      then obtain pre sel post m where b: "xs = pre @ sel # post" "max_loop x k xs = Inr sel"
          "headroom sel = Inr m" "k < m" "\<forall>x\<in>set pre. \<exists>k. headroom x = Inr k \<and> k < m"
          "\<forall>x\<in>set post. \<exists>k. headroom x = Inr k \<and> k \<le> m" by blast
      have "x # xs = (x # pre) @ sel # post \<and> max_loop best bk (x # xs) = Inr sel
          \<and> headroom sel = Inr m \<and> bk < m
          \<and> (\<forall>y\<in>set (x # pre). \<exists>j. headroom y = Inr j \<and> j < m)
          \<and> (\<forall>y\<in>set post. \<exists>j. headroom y = Inr j \<and> j \<le> m)"
        using b k True by simp
      then show ?thesis by blast
    qed
  next
    case False
    from Cons.IH[OF rest, of best bk] show ?thesis
    proof
      assume a: "max_loop best bk xs = Inr best \<and> (\<forall>y\<in>set xs. \<exists>j. headroom y = Inr j \<and> j \<le> bk)"
      then show ?thesis using k False by simp
    next
      assume "\<exists>pre sel post m. xs = pre @ sel # post \<and> max_loop best bk xs = Inr sel
           \<and> headroom sel = Inr m \<and> bk < m
           \<and> (\<forall>x\<in>set pre. \<exists>k. headroom x = Inr k \<and> k < m)
           \<and> (\<forall>x\<in>set post. \<exists>k. headroom x = Inr k \<and> k \<le> m)"
      then obtain pre sel post m where b: "xs = pre @ sel # post" "max_loop best bk xs = Inr sel"
          "headroom sel = Inr m" "bk < m" "\<forall>x\<in>set pre. \<exists>k. headroom x = Inr k \<and> k < m"
          "\<forall>x\<in>set post. \<exists>k. headroom x = Inr k \<and> k \<le> m" by blast
      have "x # xs = (x # pre) @ sel # post \<and> max_loop best bk (x # xs) = Inr sel
          \<and> headroom sel = Inr m \<and> bk < m
          \<and> (\<forall>y\<in>set (x # pre). \<exists>j. headroom y = Inr j \<and> j < m)
          \<and> (\<forall>y\<in>set post. \<exists>j. headroom y = Inr j \<and> j \<le> m)"
        using b k False by simp
      then show ?thesis by blast
    qed
  qed
qed

text \<open>
  On records that all carry \<^verbatim>\<open>total_quota\<close> and \<^verbatim>\<open>used_quota\<close>, the selection returns
  the first element whose key, the \<^verbatim>\<open>Decimal\<close> difference, is greatest.
\<close>

lemma select_best_endpoint_max_key:
  assumes "endpoints \<noteq> []"
    and "\<forall>x\<in>set endpoints. total_quota x \<noteq> None \<and> used_quota x \<noteq> None"
  shows "\<exists>pre sel post m. endpoints = pre @ sel # post
           \<and> select_best_endpoint endpoints = Inr sel
           \<and> headroom sel = Inr m
           \<and> (\<forall>x\<in>set pre. \<exists>k. headroom x = Inr k \<and> k < m)
           \<and> (\<forall>x\<in>set post. \<exists>k. headroom x = Inr k \<and> k \<le> m)"
proof -
  obtain x xs where ex: "endpoints = x # xs" using assms(1) by (cases endpoints) auto
  have all: "\<forall>y\<in>set endpoints. \<exists>k. headroom y = Inr k"
    using assms(2) by (auto simp: headroom_def)
  then obtain k where k: "headroom x = Inr k" using ex by auto
  have rest: "\<forall>y\<in>set xs. \<exists>k. headroom y = Inr k" using all ex by simp
  have sel: "select_best_endpoint endpoints = max_loop x k xs"
    using ex k by (simp add: select_best_endpoint_def)
  from max_loop_split[OF rest, of x k] show ?thesis
  proof
    assume a: "max_loop x k xs = Inr x \<and> (\<forall>y\<in>set xs. \<exists>j. headroom y = Inr j \<and> j \<le> k)"
    have "endpoints = [] @ x # xs \<and> select_best_endpoint endpoints = Inr x \<and> headroom x = Inr k
         \<and> (\<forall>y\<in>set []. \<exists>j. headroom y = Inr j \<and> j < k)
         \<and> (\<forall>y\<in>set xs. \<exists>j. headroom y = Inr j \<and> j \<le> k)"
      using a ex k sel by simp
    then show ?thesis by blast
  next
    assume "\<exists>pre sel post m. xs = pre @ sel # post \<and> max_loop x k xs = Inr sel
           \<and> headroom sel = Inr m \<and> k < m
           \<and> (\<forall>x\<in>set pre. \<exists>k. headroom x = Inr k \<and> k < m)
           \<and> (\<forall>x\<in>set post. \<exists>k. headroom x = Inr k \<and> k \<le> m)"
    then obtain pre s post m where b: "xs = pre @ s # post" "max_loop x k xs = Inr s"
          "headroom s = Inr m" "k < m" "\<forall>x\<in>set pre. \<exists>k. headroom x = Inr k \<and> k < m"
          "\<forall>x\<in>set post. \<exists>k. headroom x = Inr k \<and> k \<le> m" by blast
    have "endpoints = (x # pre) @ s # post \<and> select_best_endpoint endpoints = Inr s
          \<and> headroom s = Inr m
          \<and> (\<forall>y\<in>set (x # pre). \<exists>j. headroom y = Inr j \<and> j < m)
          \<and> (\<forall>y\<in>set post. \<exists>j. headroom y = Inr j \<and> j \<le> m)"
      using b k ex sel by simp
    then show ?thesis by blast
  qed
qed

text \<open>
  C3, as amended. On a non-empty sequence of endpoint records whose headrooms
  \<^verbatim>\<open>total_quota - used_quota\<close> are below \<open>10 ^ 28\<close> in magnitude, \<open>select_best_endpoint\<close>
  returns an element \<open>sel\<close> of the sequence whose headroom is maximal: every element
  before it has strictly less headroom, every element after it at most as much, so ties
  go to the earliest. Nothing is asked of the sign of the headroom: depleted endpoints
  are selected like any other, and the result is never an error.
\<close>

theorem select_best_endpoint_first_max:
  assumes "endpoints \<noteq> []"
    and "\<forall>x\<in>set endpoints. \<exists>t u. total_quota x = Some t \<and> used_quota x = Some u
           \<and> \<bar>t - u\<bar> < 10 ^ 28"
  shows "\<exists>pre sel post ts us. endpoints = pre @ sel # post
           \<and> select_best_endpoint endpoints = Inr sel
           \<and> total_quota sel = Some ts \<and> used_quota sel = Some us
           \<and> (\<forall>x\<in>set pre. \<exists>t u. total_quota x = Some t \<and> used_quota x = Some u
                  \<and> t - u < ts - us)
           \<and> (\<forall>x\<in>set post. \<exists>t u. total_quota x = Some t \<and> used_quota x = Some u
                  \<and> t - u \<le> ts - us)"
proof -
  have key: "\<exists>t u. total_quota x = Some t \<and> used_quota x = Some u \<and> headroom x = Inr (t - u)"
    if "x \<in> set endpoints" for x
    using assms(2) that by (fastforce simp: headroom_def decimal_sub_exact)
  have "\<forall>x\<in>set endpoints. total_quota x \<noteq> None \<and> used_quota x \<noteq> None"
    using assms(2) by fastforce
  from select_best_endpoint_max_key[OF assms(1) this]
  obtain pre sel post m where d: "endpoints = pre @ sel # post"
      "select_best_endpoint endpoints = Inr sel" "headroom sel = Inr m"
      "\<forall>x\<in>set pre. \<exists>k. headroom x = Inr k \<and> k < m"
      "\<forall>x\<in>set post. \<exists>k. headroom x = Inr k \<and> k \<le> m" by blast
  from key[of sel] d(1,3) obtain ts us where s: "total_quota sel = Some ts"
      "used_quota sel = Some us" "m = ts - us" by auto
  have p: "\<forall>x\<in>set pre. \<exists>t u. total_quota x = Some t \<and> used_quota x = Some u \<and> t - u < ts - us"
  proof
    fix x assume x: "x \<in> set pre"
    then obtain t u where "total_quota x = Some t" "used_quota x = Some u"
        "headroom x = Inr (t - u)" using key[of x] d(1) by auto
    then show "\<exists>t u. total_quota x = Some t \<and> used_quota x = Some u \<and> t - u < ts - us"
      using d(4) x s(3) by auto
  qed
  have q: "\<forall>x\<in>set post. \<exists>t u. total_quota x = Some t \<and> used_quota x = Some u \<and> t - u \<le> ts - us"
  proof
    fix x assume x: "x \<in> set post"
    then obtain t u where "total_quota x = Some t" "used_quota x = Some u"
        "headroom x = Inr (t - u)" using key[of x] d(1) by auto
    then show "\<exists>t u. total_quota x = Some t \<and> used_quota x = Some u \<and> t - u \<le> ts - us"
      using d(5) x s(3) by auto
  qed
  have "endpoints = pre @ sel # post \<and> select_best_endpoint endpoints = Inr sel
      \<and> total_quota sel = Some ts \<and> used_quota sel = Some us
      \<and> (\<forall>x\<in>set pre. \<exists>t u. total_quota x = Some t \<and> used_quota x = Some u \<and> t - u < ts - us)
      \<and> (\<forall>x\<in>set post. \<exists>t u. total_quota x = Some t \<and> used_quota x = Some u \<and> t - u \<le> ts - us)"
    using d(1,2) s(1,2) p q by simp
  then show ?thesis by blast
qed

text \<open>
  The theorem on three depleted endpoints: headrooms -2, 0 and 0. The first of the two
  maximal ones, the second record, is returned.
\<close>

theorem select_best_endpoint_first_max_witness:
  "[item ''us-west-2'' 10 12 0 0, item ''us-east-1'' 10 10 0 0, item ''eu-west-1'' 5 5 0 0] \<noteq> []
   \<and> select_best_endpoint
        [item ''us-west-2'' 10 12 0 0, item ''us-east-1'' 10 10 0 0, item ''eu-west-1'' 5 5 0 0]
      = Inr (item ''us-east-1'' 10 10 0 0)"
  using select_best_endpoint_first_max[of
      "[item ''us-west-2'' 10 12 0 0, item ''us-east-1'' 10 10 0 0, item ''eu-west-1'' 5 5 0 0]"]
  by (simp add: select_best_endpoint_def headroom_def decimal_sub_exact)

text \<open>
  C3 as stated fails beyond 28 digits. The second endpoint has the greater headroom,
  \<open>10 ^ 30 + 1\<close> against \<open>10 ^ 30\<close>, but both differences round to \<open>10 ^ 30\<close>, the keys
  tie, and the first endpoint is returned.
\<close>

theorem select_rounded_headroom_counterexample:
  "(10 ^ 30 - 0 :: int) < 10 ^ 30 + 1 - 0
   \<and> select_best_endpoint
        [item ''us-east-1'' (10 ^ 30) 0 0 0, item ''us-west-2'' (10 ^ 30 + 1) 0 0 0]
      = Inr (item ''us-east-1'' (10 ^ 30) 0 0 0)"
  using decimal_fix_10_30 decimal_fix_10_30_1
  by (simp add: select_best_endpoint_def headroom_def decimal_sub_def)

text \<open>
  C7, as amended. With no endpoints the operation fails, but there is no error of its
  own for it. \<open>select_best_endpoint\<close> on the empty sequence raises the \<^verbatim>\<open>ValueError\<close> of
  \<^verbatim>\<open>max\<close>. The handler does not raise: when the scan returns no items it answers a
  request that carries a prompt with an ordinary response, status 500 and the body
  \<^verbatim>\<open>No endpoints available\<close>, before any reset, selection or update.
\<close>

theorem no_endpoints_available:
  "select_best_endpoint [] = Inl ValueError
   \<and> serve clock bedrock prompt [] =
        (Inr \<lparr>statusCode = 500, body = Text ''No endpoints available''\<rparr>, [])
   \<and> (read_prompt ev = Inr prompt \<and> truthy prompt \<longrightarrow>
        lambda_handler clock bedrock ev [] =
          (Inr \<lparr>statusCode = 500, body = Text ''No endpoints available''\<rparr>, []))"
  by (simp add: select_best_endpoint_def serve_def get_available_endpoints_def
      lambda_handler_def)

theorem no_endpoints_available_witness:
  "read_prompt (BodyJson (JObject [(''prompt'', JString ''hi'')])) = Inr (JString ''hi'')
   \<and> truthy (JString ''hi'')
   \<and> lambda_handler (\<lambda>i. 0) (\<lambda>r p. Result ''ok'')
        (BodyJson (JObject [(''prompt'', JString ''hi'')])) [] =
          (Inr \<lparr>statusCode = 500, body = Text ''No endpoints available''\<rparr>, [])"
  using no_endpoints_available[of "\<lambda>i. 0" "\<lambda>r p. Result ''ok''" "JString ''hi''"
      "BodyJson (JObject [(''prompt'', JString ''hi'')])"]
  by (simp add: read_prompt_def json_loads_body_def get_prompt_def)

text \<open>
  C7 as stated fails: the code has no \<^verbatim>\<open>NoEndpointsAvailable\<close>. What the selection
  raises on the empty sequence is the very exception a malformed body raises, and the
  handler on an empty table returns a response instead of failing with an error.
\<close>

theorem no_dedicated_error_counterexample:
  "select_best_endpoint [] = Inl ValueError
   \<and> json_loads_body BodyMalformed = Inl ValueError
   \<and> \<not> isl (fst (lambda_handler (\<lambda>i. 0) (\<lambda>r p. Result ''ok'')
        (BodyJson (JObject [(''prompt'', JString ''hi'')])) []))"
  by (simp add: select_best_endpoint_def json_loads_body_def lambda_handler_def read_prompt_def
      get_prompt_def serve_def get_available_endpoints_def)

section \<open>A single reset\<close>

lemma reset_if_needed_due:
  assumes "should_reset now (get_last_reset e) = Inr True"
  shows "reset_if_needed now e tbl =
     (Inr (e\<lparr>used_quota := Some 0\<rparr>),
      update_item (region e) (\<lambda>it. it\<lparr>used_quota := Some 0, last_reset := Some now\<rparr>) tbl)"
  using assms by (simp add: reset_if_needed_def)

lemma reset_if_needed_not_due:
  assumes "should_reset now (get_last_reset e) \<noteq> Inr True"
  shows "snd (reset_if_needed now e tbl) = tbl"
  using assms by (auto simp: reset_if_needed_def split: sum.splits)

text \<open>
  C9. A record without \<^verbatim>\<open>last_reset\<close> is read as last reset at time 0. Whenever the
  current time is at least 60 it is therefore reset: the in-memory copy and the stored
  item get \<^verbatim>\<open>used_quota\<close> 0, and the stored item gets the current time as its
  \<^verbatim>\<open>last_reset\<close>.
\<close>

theorem missing_last_reset_is_reset:
  assumes "last_reset e = None" and "60 \<le> now"
  shows "get_last_reset e = PyInt 0
    \<and> (\<exists>e'. fst (reset_if_needed now e tbl) = Inr e' \<and> used_quota e' = Some 0)
    \<and> (\<exists>it. stored (snd (reset_if_needed now e tbl)) (region e) = Some it
          \<and> used_quota it = Some 0 \<and> last_reset it = Some now)"
proof -
  have lr: "get_last_reset e = PyInt 0" using assms(1) by (simp add: get_last_reset_def)
  have "0 < now div 60" using assms(2) by linarith
  then have sr: "should_reset now (get_last_reset e) = Inr True"
    by (simp add: lr should_reset_def floordiv_60_def)
  show ?thesis
    using lr by (simp add: reset_if_needed_due[OF sr] stored_update_item)
qed

theorem missing_last_reset_is_reset_witness:
  "last_reset \<lparr>region = ''us-east-1'', total_quota = Some 10, used_quota = Some 4,
       last_reset = None, request_count = Some 4\<rparr> = None
   \<and> (60::int) \<le> 60
   \<and> reset_if_needed 60
       \<lparr>region = ''us-east-1'', total_quota = Some 10, used_quota = Some 4,
         last_reset = None, request_count = Some 4\<rparr>
       [\<lparr>region = ''us-east-1'', total_quota = Some 10, used_quota = Some 4,
         last_reset = None, request_count = Some 4\<rparr>]
     = (Inr \<lparr>region = ''us-east-1'', total_quota = Some 10, used_quota = Some 0,
         last_reset = None, request_count = Some 4\<rparr>,
        [item ''us-east-1'' 10 0 60 4])"
  using missing_last_reset_is_reset[of "\<lparr>region = ''us-east-1'', total_quota = Some 10,
      used_quota = Some 4, last_reset = None, request_count = Some 4\<rparr>" 60
      "[\<lparr>region = ''us-east-1'', total_quota = Some 10, used_quota = Some 4,
         last_reset = None, request_count = Some 4\<rparr>]"]
  by (simp add: reset_if_needed_def should_reset_def floordiv_60_def get_last_reset_def)

text \<open>
  C4, as amended. The reset is an unconditional overwrite. Whenever the copy the caller
  holds passes the window check, the stored item of that region gets \<^verbatim>\<open>used_quota\<close> 0
  and \<^verbatim>\<open>last_reset\<close> \<open>now\<close>, whatever \<^verbatim>\<open>last_reset\<close> the store holds at that moment
  (the stored \<^verbatim>\<open>last_reset\<close> is not compared with the one the caller read). When
  the copy does not pass the check the table is left alone, and in either case only the
  item of that region is touched.
\<close>

theorem reset_overwrites_unconditionally:
  "(should_reset now (get_last_reset e) = Inr True \<longrightarrow>
      stored (snd (reset_if_needed now e tbl)) (region e) =
        Some ((case stored tbl (region e) of None \<Rightarrow> new_item (region e) | Some cur \<Rightarrow> cur)
              \<lparr>used_quota := Some 0, last_reset := Some now\<rparr>))
   \<and> (should_reset now (get_last_reset e) \<noteq> Inr True \<longrightarrow>
        snd (reset_if_needed now e tbl) = tbl)
   \<and> (\<forall>k. k \<noteq> region e \<longrightarrow> stored (snd (reset_if_needed now e tbl)) k = stored tbl k)"
proof -
  have a: "should_reset now (get_last_reset e) = Inr True \<longrightarrow>
      stored (snd (reset_if_needed now e tbl)) (region e) =
        Some ((case stored tbl (region e) of None \<Rightarrow> new_item (region e) | Some cur \<Rightarrow> cur)
              \<lparr>used_quota := Some 0, last_reset := Some now\<rparr>)"
    by (simp add: reset_if_needed_due stored_update_item)
  have b: "should_reset now (get_last_reset e) \<noteq> Inr True \<longrightarrow>
        snd (reset_if_needed now e tbl) = tbl"
    by (simp add: reset_if_needed_not_due)
  have c: "\<forall>k. k \<noteq> region e \<longrightarrow> stored (snd (reset_if_needed now e tbl)) k = stored tbl k"
  proof (cases "should_reset now (get_last_reset e) = Inr True")
    case True
    then show ?thesis by (simp add: reset_if_needed_due stored_update_item)
  next
    case False
    then show ?thesis by (simp add: reset_if_needed_not_due)
  qed
  show ?thesis using a b c by blast
qed

text \<open>
  The theorem on a stale copy (last reset read as 0) at time 130, against a store that
  was reset at 125 and has counted 5 uses since; then on a fresh copy, which is left
  alone.
\<close>

theorem reset_overwrites_unconditionally_witness:
  "should_reset 130 (get_last_reset (item ''us-east-1'' 10 9 0 9)) = Inr True
   \<and> stored (snd (reset_if_needed 130 (item ''us-east-1'' 10 9 0 9)
        [item ''us-east-1'' 10 5 125 20, item ''us-west-2'' 10 3 125 3])) ''us-east-1''
       = Some (item ''us-east-1'' 10 0 130 20)
   \<and> ''us-west-2'' \<noteq> ''us-east-1''
   \<and> stored (snd (reset_if_needed 130 (item ''us-east-1'' 10 9 0 9)
        [item ''us-east-1'' 10 5 125 20, item ''us-west-2'' 10 3 125 3])) ''us-west-2''
       = Some (item ''us-west-2'' 10 3 125 3)
   \<and> should_reset 130 (get_last_reset (item ''us-east-1'' 10 9 125 9)) = Inr False
   \<and> snd (reset_if_needed 130 (item ''us-east-1'' 10 9 125 9) []) = []"
  using reset_overwrites_unconditionally[of 130 "item ''us-east-1'' 10 9 0 9"
      "[item ''us-east-1'' 10 5 125 20, item ''us-west-2'' 10 3 125 3]"]
    reset_overwrites_unconditionally[of 130 "item ''us-east-1'' 10 9 125 9" "[]"]
  by (simp add: should_reset_def floordiv_60_def get_last_reset_def stored_def)

text \<open>
  C4 as stated fails. The caller read \<^verbatim>\<open>last_reset\<close> 0; the store meanwhile holds
  \<^verbatim>\<open>last_reset\<close> 125 and \<^verbatim>\<open>used_quota\<close> 5. The values differ, so a conditional update
  would leave the item unchanged; the code writes 0 and 130 over it.
\<close>

theorem reset_not_conditional_counterexample:
  "last_reset (item ''us-east-1'' 10 5 125 20) \<noteq> last_reset (item ''us-east-1'' 10 9 0 9)
   \<and> snd (reset_if_needed 130 (item ''us-east-1'' 10 9 0 9) [item ''us-east-1'' 10 5 125 20])
     = [item ''us-east-1'' 10 0 130 20]
   \<and> snd (reset_if_needed 130 (item ''us-east-1'' 10 9 0 9) [item ''us-east-1'' 10 5 125 20])
     \<noteq> [item ''us-east-1'' 10 5 125 20]"
  by (simp add: reset_if_needed_def should_reset_def floordiv_60_def get_last_reset_def)




section \<open>The reset pass\<close>

lemma only_resets_refl: "only_resets tbl tbl"
  by (simp add: only_resets_def list_all2_same)

lemma window_reset_trans:
  "(b = a \<or> window_reset a b) \<Longrightarrow> (c = b \<or> window_reset b c) \<Longrightarrow> c = a \<or> window_reset a c"
  by (auto simp: window_reset_def)

lemma only_resets_trans:
  "only_resets t1 t2 \<Longrightarrow> only_resets t2 t3 \<Longrightarrow> only_resets t1 t3"
  unfolding only_resets_def
  by (erule list_all2_trans[rotated], assumption) (rule window_reset_trans)

lemma only_resets_regions: "only_resets t1 t2 \<Longrightarrow> map region t2 = map region t1"
  unfolding only_resets_def
  by (induction t1 t2 rule: list_all2_induct) (auto simp: window_reset_def)

lemma only_resets_request_count:
  "only_resets t1 t2 \<Longrightarrow> map request_count t2 = map request_count t1"
  unfolding only_resets_def
  by (induction t1 t2 rule: list_all2_induct) (auto simp: window_reset_def)

lemma reset_if_needed_only_resets:
  assumes "region e \<in> region ` set tbl"
  shows "only_resets tbl (snd (reset_if_needed now e tbl))"
proof (cases "should_reset now (get_last_reset e) = Inr True")
  case False
  then show ?thesis by (simp add: reset_if_needed_not_due only_resets_refl)
next
  case True
  from assms obtain cur where "stored tbl (region e) = Some cur"
    using stored_Some_iff[of tbl "region e"] by blast
  from update_item_split[OF this] obtain pre post where
    sp: "tbl = pre @ cur # post"
      "update_item (region e) (\<lambda>it. it\<lparr>used_quota := Some 0, last_reset := Some now\<rparr>) tbl
        = pre @ cur\<lparr>used_quota := Some 0, last_reset := Some now\<rparr> # post"
    by blast
  have "window_reset cur (cur\<lparr>used_quota := Some 0, last_reset := Some now\<rparr>)"
    by (simp add: window_reset_def)
  then have "only_resets (pre @ cur # post)
      (pre @ cur\<lparr>used_quota := Some 0, last_reset := Some now\<rparr> # post)"
    by (simp add: only_resets_def list_all2_appendI list_all2_same)
  then show ?thesis using sp by (simp add: reset_if_needed_due[OF True])
qed

text \<open>
  The table after the loop is the table after the first call, when that call raised, or
  the table after the rest of the loop run from there.
\<close>

lemma reset_loop_snd_cases:
  "snd (reset_loop clock i (e # es) tbl) = snd (reset_if_needed (clock i) e tbl)
   \<or> snd (reset_loop clock i (e # es) tbl)
       = snd (reset_loop clock (Suc i) es (snd (reset_if_needed (clock i) e tbl)))"
  by (simp split: prod.splits sum.splits)

lemma reset_loop_only_resets:
  assumes "region ` set es \<subseteq> region ` set tbl"
  shows "only_resets tbl (snd (reset_loop clock i es tbl))"
  using assms
proof (induction es arbitrary: tbl i)
  case Nil
  then show ?case by (simp add: only_resets_refl)
next
  case (Cons e es)
  let ?t = "snd (reset_if_needed (clock i) e tbl)"
  have r1: "only_resets tbl ?t"
    using reset_if_needed_only_resets[of e tbl "clock i"] Cons.prems by simp
  then have "region ` set ?t = region ` set tbl"
    using only_resets_regions[of tbl ?t] by (metis set_map)
  then have "region ` set es \<subseteq> region ` set ?t" using Cons.prems by simp
  from Cons.IH[OF this, of "Suc i"]
  have r2: "only_resets ?t (snd (reset_loop clock (Suc i) es ?t))" .
  show ?case
    using reset_loop_snd_cases[of clock i e es tbl] r1 only_resets_trans[OF r1 r2] by auto
qed

section \<open>The handler and the downstream call\<close>

lemmas handler_defs = lambda_handler_def read_prompt_def json_loads_body_def get_prompt_def
  serve_def get_available_endpoints_def reset_if_needed_def should_reset_def floordiv_60_def
  get_last_reset_def select_best_endpoint_def headroom_def update_quota_def stored_def

text \<open>The table a call leaves behind is one of three.\<close>

lemma handler_table_cases:
  "snd (lambda_handler clock bedrock ev tbl) = tbl
   \<or> snd (lambda_handler clock bedrock ev tbl) = snd (reset_loop clock 0 tbl tbl)
   \<or> (\<exists>rgn. update_quota rgn 1 (snd (reset_loop clock 0 tbl tbl))
          = Inr (snd (lambda_handler clock bedrock ev tbl)))"
  by (auto simp: lambda_handler_def serve_def get_available_endpoints_def
      split: sum.splits error.splits prod.splits invocation.splits)

text \<open>
  C1, as amended. Usage is charged after the downstream call, and only when that call
  has returned a result. For a request that reaches the downstream call (it carries a
  prompt, the table is not empty, the reset pass and the selection succeed): if creating
  the client or invoking the model fails for the selected endpoint, the handler answers
  500 and no increment is made, the table is left as the reset pass left it, which
  differs from the table before the call by window resets only and has every
  \<^verbatim>\<open>request_count\<close> as it was; nothing was charged, so nothing is to be refunded. If the
  call returns a result, the increment is made then, and the handler answers 200 once
  the store has accepted it.
\<close>

theorem no_charge_when_downstream_fails:
  assumes "read_prompt ev = Inr prompt" and "truthy prompt"
    and "reset_loop clock 0 (get_available_endpoints tbl) tbl = (Inr endpoints, tbl1)"
    and "select_best_endpoint endpoints = Inr sel"
  shows "(bedrock (region sel) prompt = ClientInitError msg \<longrightarrow>
        lambda_handler clock bedrock ev tbl =
          (Inr \<lparr>statusCode = 500,
                body = Text (''Error initializing Bedrock client: '' @ msg)\<rparr>, tbl1))
    \<and> (bedrock (region sel) prompt = InvokeError msg \<longrightarrow>
        lambda_handler clock bedrock ev tbl =
          (Inr \<lparr>statusCode = 500,
                body = Text (''Bedrock invocation failed: '' @ msg)\<rparr>, tbl1))
    \<and> only_resets tbl tbl1
    \<and> map request_count tbl1 = map request_count tbl
    \<and> (bedrock (region sel) prompt = Result res
          \<and> update_quota (region sel) 1 tbl1 = Inr tbl2 \<longrightarrow>
        lambda_handler clock bedrock ev tbl =
          (Inr \<lparr>statusCode = 200, body = Invoked (region sel) res\<rparr>, tbl2)
        \<and> (\<exists>pre cur post u c. tbl1 = pre @ cur # post \<and> region cur = region sel
              \<and> used_quota cur = Some u \<and> request_count cur = Some c
              \<and> tbl2 = pre @ cur\<lparr>used_quota := Some (u + 1),
                                   request_count := Some (c + 1)\<rparr> # post))"
proof -
  have "only_resets tbl (snd (reset_loop clock 0 tbl tbl))"
    by (rule reset_loop_only_resets) simp
  then have r: "only_resets tbl tbl1" using assms(3) by (simp add: get_available_endpoints_def)
  have ne: "tbl \<noteq> []"
  proof
    assume "tbl = []"
    then have "endpoints = []" using assms(3) by (simp add: get_available_endpoints_def)
    then show False using assms(4) by (simp add: select_best_endpoint_def)
  qed
  have a: "bedrock (region sel) prompt = ClientInitError msg \<longrightarrow>
        lambda_handler clock bedrock ev tbl =
          (Inr \<lparr>statusCode = 500,
                body = Text (''Error initializing Bedrock client: '' @ msg)\<rparr>, tbl1)"
    using assms ne by (simp add: lambda_handler_def serve_def get_available_endpoints_def)
  have b: "bedrock (region sel) prompt = InvokeError msg \<longrightarrow>
        lambda_handler clock bedrock ev tbl =
          (Inr \<lparr>statusCode = 500,
                body = Text (''Bedrock invocation failed: '' @ msg)\<rparr>, tbl1)"
    using assms ne by (simp add: lambda_handler_def serve_def get_available_endpoints_def)
  have c: "bedrock (region sel) prompt = Result res
          \<and> update_quota (region sel) 1 tbl1 = Inr tbl2 \<longrightarrow>
        lambda_handler clock bedrock ev tbl =
          (Inr \<lparr>statusCode = 200, body = Invoked (region sel) res\<rparr>, tbl2)"
    using assms ne by (simp add: lambda_handler_def serve_def get_available_endpoints_def)
  have d: "update_quota (region sel) 1 tbl1 = Inr tbl2 \<longrightarrow>
        (\<exists>pre cur post u c. tbl1 = pre @ cur # post \<and> region cur = region sel
              \<and> used_quota cur = Some u \<and> request_count cur = Some c
              \<and> tbl2 = pre @ cur\<lparr>used_quota := Some (u + 1),
                                   request_count := Some (c + 1)\<rparr> # post)"
    using update_quota_split[of "region sel" 1 tbl1 tbl2] by blast
  show ?thesis using a b c d r only_resets_request_count[OF r] by blast
qed

text \<open>
  The theorem on a request at time 130 whose invocation fails: \<^verbatim>\<open>us-west-2\<close> is reset
  and selected, the answer is 500, and its counters are not incremented.
\<close>

theorem no_charge_when_downstream_fails_witness:
  "read_prompt (BodyJson (JObject [(''prompt'', JString ''hi'')])) = Inr (JString ''hi'')
   \<and> truthy (JString ''hi'')
   \<and> reset_loop (\<lambda>i. 130) 0
        (get_available_endpoints [item ''us-east-1'' 10 10 125 7, item ''us-west-2'' 10 3 0 7])
        [item ''us-east-1'' 10 10 125 7, item ''us-west-2'' 10 3 0 7]
      = (Inr [item ''us-east-1'' 10 10 125 7, item ''us-west-2'' 10 0 0 7],
         [item ''us-east-1'' 10 10 125 7, item ''us-west-2'' 10 0 130 7])
   \<and> select_best_endpoint [item ''us-east-1'' 10 10 125 7, item ''us-west-2'' 10 0 0 7]
      = Inr (item ''us-west-2'' 10 0 0 7)
   \<and> lambda_handler (\<lambda>i. 130) (\<lambda>r p. InvokeError ''throttled'')
      (BodyJson (JObject [(''prompt'', JString ''hi'')]))
      [item ''us-east-1'' 10 10 125 7, item ''us-west-2'' 10 3 0 7]
    = (Inr \<lparr>statusCode = 500, body = Text ''Bedrock invocation failed: throttled''\<rparr>,
       [item ''us-east-1'' 10 10 125 7, item ''us-west-2'' 10 0 130 7])
   \<and> only_resets [item ''us-east-1'' 10 10 125 7, item ''us-west-2'' 10 3 0 7]
       [item ''us-east-1'' 10 10 125 7, item ''us-west-2'' 10 0 130 7]"
proof -
  have h1: "read_prompt (BodyJson (JObject [(''prompt'', JString ''hi'')])) = Inr (JString ''hi'')"
    by (simp add: read_prompt_def json_loads_body_def get_prompt_def)
  have h2: "truthy (JString ''hi'')" by simp
  have h4: "reset_loop (\<lambda>i. 130) 0
        (get_available_endpoints [item ''us-east-1'' 10 10 125 7, item ''us-west-2'' 10 3 0 7])
        [item ''us-east-1'' 10 10 125 7, item ''us-west-2'' 10 3 0 7]
      = (Inr [item ''us-east-1'' 10 10 125 7, item ''us-west-2'' 10 0 0 7],
         [item ''us-east-1'' 10 10 125 7, item ''us-west-2'' 10 0 130 7])"
    by (simp add: get_available_endpoints_def reset_if_needed_def should_reset_def
        floordiv_60_def get_last_reset_def)
  have h5: "select_best_endpoint [item ''us-east-1'' 10 10 125 7, item ''us-west-2'' 10 0 0 7]
      = Inr (item ''us-west-2'' 10 0 0 7)"
    by (simp add: select_best_endpoint_def headroom_def decimal_sub_exact)
  show ?thesis
    using no_charge_when_downstream_fails[OF h1 h2 h4 h5,
        of "\<lambda>r p. InvokeError ''throttled''" "''throttled''"] h1 h2 h4 h5
    by simp
qed

text \<open>
  C1 as stated fails. On the same request and table, a failing invocation leaves
  \<^verbatim>\<open>used_quota\<close> 3 and \<^verbatim>\<open>request_count\<close> 7 in place, and a successful one makes them 4
  and 8: the increment depends on the downstream outcome.
\<close>

theorem charge_regardless_of_outcome_counterexample:
  "lambda_handler (\<lambda>i. 30) (\<lambda>r p. InvokeError ''throttled'')
      (BodyJson (JObject [(''prompt'', JString ''hi'')]))
      [item ''us-east-1'' 10 3 0 7]
    = (Inr \<lparr>statusCode = 500, body = Text ''Bedrock invocation failed: throttled''\<rparr>,
       [item ''us-east-1'' 10 3 0 7])
   \<and> lambda_handler (\<lambda>i. 30) (\<lambda>r p. Result ''ok'')
      (BodyJson (JObject [(''prompt'', JString ''hi'')]))
      [item ''us-east-1'' 10 3 0 7]
    = (Inr \<lparr>statusCode = 200, body = Invoked ''us-east-1'' ''ok''\<rparr>,
       [item ''us-east-1'' 10 4 0 8])"
  by (simp add: handler_defs decimal_sub_exact)

section \<open>A completed reservation\<close>

lemma handler_200:
  assumes "lambda_handler clock bedrock ev tbl = (Inr resp, tbl')" and "statusCode resp = 200"
  shows "\<exists>rgn res. update_quota rgn 1 (snd (reset_loop clock 0 tbl tbl)) = Inr tbl'
           \<and> body resp = Invoked rgn res"
  using assms
  by (auto simp: lambda_handler_def serve_def get_available_endpoints_def
      split: sum.splits error.splits prod.splits invocation.splits if_splits)

text \<open>A table that differs by resets from one split around an item splits the same way.\<close>

lemma only_resets_split:
  assumes "only_resets tbl (pre' @ cur # post')"
  shows "\<exists>pre a post. tbl = pre @ a # post \<and> only_resets pre pre' \<and> only_resets post post'
      \<and> (cur = a \<or> window_reset a cur)"
proof -
  from assms obtain pre rest where 1: "tbl = pre @ rest" "only_resets pre pre'"
      "only_resets rest (cur # post')"
    unfolding only_resets_def by (auto simp: list_all2_append2)
  from 1(3) obtain a post where 2: "rest = a # post" "cur = a \<or> window_reset a cur"
      "only_resets post post'"
    unfolding only_resets_def by (auto simp: list_all2_Cons2)
  show ?thesis using 1(1,2) 2 by blast
qed

text \<open>
  C5, as amended. After a completed reservation (the handler answers 200) exactly one
  item has been charged, the item \<open>a\<close> of the region named in the answer, now \<open>b\<close>: its
  \<^verbatim>\<open>request_count\<close> is greater by exactly 1, and its \<^verbatim>\<open>used_quota\<close> is its previous value
  plus 1 or, when its window was reset in this call (which also sets its \<^verbatim>\<open>last_reset\<close>),
  exactly 1. Nothing else of it has changed. Every other item is as before the call or
  differs by a window reset.
\<close>

theorem completed_reserve_charges_one:
  assumes "lambda_handler clock bedrock ev tbl = (Inr resp, tbl')" and "statusCode resp = 200"
  shows "\<exists>pre a post pre' b post' c res.
      tbl = pre @ a # post \<and> tbl' = pre' @ b # post'
    \<and> only_resets pre pre' \<and> only_resets post post'
    \<and> body resp = Invoked (region a) res
    \<and> request_count a = Some c
    \<and> ((\<exists>u. used_quota a = Some u
             \<and> b = a\<lparr>used_quota := Some (u + 1), request_count := Some (c + 1)\<rparr>)
        \<or> (\<exists>now. b = a\<lparr>used_quota := Some 1, last_reset := Some now,
                          request_count := Some (c + 1)\<rparr>))"
proof -
  from handler_200[OF assms] obtain rgn res where
    up: "update_quota rgn 1 (snd (reset_loop clock 0 tbl tbl)) = Inr tbl'"
    and b: "body resp = Invoked rgn res" by blast
  from update_quota_split[OF up] obtain pre' cur post' u c where
    sp: "snd (reset_loop clock 0 tbl tbl) = pre' @ cur # post'" "region cur = rgn"
      "used_quota cur = Some u" "request_count cur = Some c"
      "tbl' = pre' @ cur\<lparr>used_quota := Some (u + 1), request_count := Some (c + 1)\<rparr> # post'"
    by blast
  have "only_resets tbl (snd (reset_loop clock 0 tbl tbl))"
    by (rule reset_loop_only_resets) simp
  then have "only_resets tbl (pre' @ cur # post')" using sp(1) by simp
  from only_resets_split[OF this] obtain pre a post where
    t: "tbl = pre @ a # post" "only_resets pre pre'" "only_resets post post'"
      "cur = a \<or> window_reset a cur" by blast
  let ?b = "cur\<lparr>used_quota := Some (u + 1), request_count := Some (c + 1)\<rparr>"
  have same: "region cur = region a \<and> total_quota cur = total_quota a
      \<and> request_count cur = request_count a"
    using t(4) by (auto simp: window_reset_def)
  have used: "(\<exists>v. used_quota a = Some v
             \<and> ?b = a\<lparr>used_quota := Some (v + 1), request_count := Some (c + 1)\<rparr>)
        \<or> (\<exists>now. ?b = a\<lparr>used_quota := Some 1, last_reset := Some now,
                          request_count := Some (c + 1)\<rparr>)"
    using t(4)
  proof
    assume "cur = a"
    then show ?thesis using sp(3) by simp
  next
    assume w: "window_reset a cur"
    then obtain now where n: "last_reset cur = Some now"
        "cur = a\<lparr>used_quota := Some 0, last_reset := Some now\<rparr>"
      by (auto simp: window_reset_def)
    have "used_quota cur = Some 0" by (subst n(2)) simp
    then have "u = 0" using sp(3) by simp
    then have "?b = a\<lparr>used_quota := Some 1, last_reset := Some now,
        request_count := Some (c + 1)\<rparr>"
      by (subst n(2)) simp
    then show ?thesis by blast
  qed
  have "tbl = pre @ a # post \<and> tbl' = pre' @ ?b # post'
    \<and> only_resets pre pre' \<and> only_resets post post'
    \<and> body resp = Invoked (region a) res
    \<and> request_count a = Some c
    \<and> ((\<exists>v. used_quota a = Some v
             \<and> ?b = a\<lparr>used_quota := Some (v + 1), request_count := Some (c + 1)\<rparr>)
        \<or> (\<exists>now. ?b = a\<lparr>used_quota := Some 1, last_reset := Some now,
                          request_count := Some (c + 1)\<rparr>))"
    using t(1,2,3) sp(2,4,5) b same used by simp
  then show ?thesis by blast
qed

text \<open>
  The theorem on a request at time 130: \<^verbatim>\<open>us-west-2\<close> is reset (its last reset was in
  window 0), selected with headroom 10 against 0, and charged once.
\<close>

theorem completed_reserve_charges_one_witness:
  "lambda_handler (\<lambda>i. 130) (\<lambda>r p. Result ''ok'')
      (BodyJson (JObject [(''prompt'', JString ''hi'')]))
      [item ''us-east-1'' 10 10 125 7, item ''us-west-2'' 10 3 0 7]
    = (Inr \<lparr>statusCode = 200, body = Invoked ''us-west-2'' ''ok''\<rparr>,
       [item ''us-east-1'' 10 10 125 7, item ''us-west-2'' 10 1 130 8])
   \<and> statusCode \<lparr>statusCode = 200, body = Invoked ''us-west-2'' ''ok''\<rparr> = 200"
  using completed_reserve_charges_one[of "\<lambda>i. 130" "\<lambda>r p. Result ''ok''"
      "BodyJson (JObject [(''prompt'', JString ''hi'')])"
      "[item ''us-east-1'' 10 10 125 7, item ''us-west-2'' 10 3 0 7]"
      "\<lparr>statusCode = 200, body = Invoked ''us-west-2'' ''ok''\<rparr>"
      "[item ''us-east-1'' 10 10 125 7, item ''us-west-2'' 10 1 130 8]"]
  by (simp add: handler_defs decimal_sub_exact)

text \<open>
  C5 as stated fails. The request at time 130 is answered 200 and charged to
  \<^verbatim>\<open>us-west-2\<close>, whose \<^verbatim>\<open>used_quota\<close> was 3 before the call and is 1 after it, not 4: the
  charged endpoint is itself reset in the call.
\<close>

theorem charged_endpoint_reset_counterexample:
  "lambda_handler (\<lambda>i. 130) (\<lambda>r p. Result ''ok'')
      (BodyJson (JObject [(''prompt'', JString ''hi'')]))
      [item ''us-east-1'' 10 10 125 7, item ''us-west-2'' 10 3 0 7]
    = (Inr \<lparr>statusCode = 200, body = Invoked ''us-west-2'' ''ok''\<rparr>,
       [item ''us-east-1'' 10 10 125 7, item ''us-west-2'' 10 1 130 8])
   \<and> used_quota (item ''us-west-2'' 10 3 0 7) = Some 3
   \<and> used_quota (item ''us-west-2'' 10 1 130 8) \<noteq> Some (3 + 1)"
  by (simp add: handler_defs decimal_sub_exact)

section \<open>The invariant on counters and reset times\<close>

lemma quota_nonneg_update_item:
  assumes "quota_nonneg tbl"
    and "\<And>it. (case used_quota (f it) of None \<Rightarrow> True | Some u \<Rightarrow> 0 \<le> u)"
  shows "quota_nonneg (update_item k f tbl)"
  using assms by (induction tbl) (auto simp: quota_nonneg_def)

lemma reset_if_needed_nonneg:
  assumes "quota_nonneg tbl"
  shows "quota_nonneg (snd (reset_if_needed now e tbl))"
proof (cases "should_reset now (get_last_reset e) = Inr True")
  case True
  then show ?thesis using assms by (simp add: reset_if_needed_due quota_nonneg_update_item)
next
  case False
  then show ?thesis using assms by (simp add: reset_if_needed_not_due)
qed

lemma reset_loop_nonneg:
  "quota_nonneg tbl \<Longrightarrow> quota_nonneg (snd (reset_loop clock i es tbl))"
proof (induction es arbitrary: tbl i)
  case Nil
  then show ?case by simp
next
  case (Cons e es)
  let ?t = "snd (reset_if_needed (clock i) e tbl)"
  have r1: "quota_nonneg ?t" by (rule reset_if_needed_nonneg[OF Cons.prems])
  from Cons.IH[OF this, of "Suc i"]
  have r2: "quota_nonneg (snd (reset_loop clock (Suc i) es ?t))" .
  show ?case using reset_loop_snd_cases[of clock i e es tbl] r1 r2 by auto
qed

lemma update_quota_nonneg:
  assumes "quota_nonneg tbl" and "0 \<le> inc" and "update_quota rgn inc tbl = Inr tbl'"
  shows "quota_nonneg tbl'"
proof -
  from update_quota_split[OF assms(3)] obtain pre cur post u c where
    sp: "tbl = pre @ cur # post" "used_quota cur = Some u"
      "tbl' = pre @ cur\<lparr>used_quota := Some (u + inc), request_count := Some (c + 1)\<rparr> # post"
    by blast
  have "0 \<le> u" using assms(1) sp(1,2) by (simp add: quota_nonneg_def)
  then show ?thesis using assms(1,2) sp by (simp add: quota_nonneg_def)
qed

lemma last_reset_not_decreased_refl: "last_reset_not_decreased tbl tbl"
  by (simp add: last_reset_not_decreased_def list_all2_same)

lemma last_reset_not_decreased_trans:
  "last_reset_not_decreased t1 t2 \<Longrightarrow> last_reset_not_decreased t2 t3
    \<Longrightarrow> last_reset_not_decreased t1 t3"
  unfolding last_reset_not_decreased_def
  by (erule list_all2_trans[rotated], assumption) auto

text \<open>
  A reset decided on a copy that carries the stored \<^verbatim>\<open>last_reset\<close> moves the stored
  \<^verbatim>\<open>last_reset\<close> forward.
\<close>

lemma reset_if_needed_mono:
  assumes "stored tbl (region e) = Some cur" and "last_reset cur = last_reset e"
  shows "last_reset_not_decreased tbl (snd (reset_if_needed now e tbl))"
proof (cases "should_reset now (get_last_reset e) = Inr True")
  case False
  then show ?thesis by (simp add: reset_if_needed_not_due last_reset_not_decreased_refl)
next
  case True
  from update_item_split[OF assms(1)] obtain pre post where
    sp: "tbl = pre @ cur # post"
      "update_item (region e) (\<lambda>it. it\<lparr>used_quota := Some 0, last_reset := Some now\<rparr>) tbl
        = pre @ cur\<lparr>used_quota := Some 0, last_reset := Some now\<rparr> # post"
    by blast
  have "get_last_reset cur = get_last_reset e" using assms(2) by (simp add: get_last_reset_def)
  then have "number_value (get_last_reset cur) \<le> now" using should_reset_later[OF True] by simp
  then have "last_reset_not_decreased (pre @ cur # post)
      (pre @ cur\<lparr>used_quota := Some 0, last_reset := Some now\<rparr> # post)"
    by (simp add: last_reset_not_decreased_def list_all2_appendI list_all2_same
        get_last_reset_def number_value_def)
  then show ?thesis using sp by (simp add: reset_if_needed_due[OF True])
qed

lemma reset_if_needed_stored_other:
  "k \<noteq> region e \<Longrightarrow> stored (snd (reset_if_needed now e tbl)) k = stored tbl k"
  by (cases "should_reset now (get_last_reset e) = Inr True")
    (simp_all add: reset_if_needed_due reset_if_needed_not_due stored_update_item)

text \<open>
  The reset pass over copies of distinct regions: a reset touches the item of its own
  region only, so every later copy still carries what the store holds.
\<close>

lemma reset_loop_mono:
  assumes "distinct (map region es)"
    and "\<forall>e\<in>set es. \<exists>cur. stored tbl (region e) = Some cur \<and> last_reset cur = last_reset e"
  shows "last_reset_not_decreased tbl (snd (reset_loop clock i es tbl))"
  using assms
proof (induction es arbitrary: tbl i)
  case Nil
  then show ?case by (simp add: last_reset_not_decreased_refl)
next
  case (Cons e es)
  let ?t = "snd (reset_if_needed (clock i) e tbl)"
  from Cons.prems(2) obtain cur where cur: "stored tbl (region e) = Some cur"
      "last_reset cur = last_reset e" by auto
  have r1: "last_reset_not_decreased tbl ?t"
    by (rule reset_if_needed_mono[OF cur])
  have "\<forall>x\<in>set es. \<exists>c. stored ?t (region x) = Some c \<and> last_reset c = last_reset x"
  proof
    fix x assume x: "x \<in> set es"
    then have "region x \<noteq> region e" using Cons.prems(1) by (auto simp: image_iff)
    then have "stored ?t (region x) = stored tbl (region x)"
      by (rule reset_if_needed_stored_other)
    then show "\<exists>c. stored ?t (region x) = Some c \<and> last_reset c = last_reset x"
      using Cons.prems(2) x by simp
  qed
  moreover have "distinct (map region es)" using Cons.prems(1) by simp
  ultimately have r2: "last_reset_not_decreased ?t (snd (reset_loop clock (Suc i) es ?t))"
    using Cons.IH[of ?t "Suc i"] by blast
  show ?case
    using reset_loop_snd_cases[of clock i e es tbl] r1 last_reset_not_decreased_trans[OF r1 r2]
    by auto
qed

lemma update_quota_mono:
  assumes "update_quota rgn inc tbl = Inr tbl'"
  shows "last_reset_not_decreased tbl tbl'"
proof -
  from update_quota_split[OF assms] obtain pre cur post u c where
    sp: "tbl = pre @ cur # post"
      "tbl' = pre @ cur\<lparr>used_quota := Some (u + inc), request_count := Some (c + 1)\<rparr> # post"
    by blast
  then show ?thesis
    by (simp add: last_reset_not_decreased_def list_all2_appendI list_all2_same
        get_last_reset_def)
qed

lemma update_quota_last_reset:
  assumes "update_quota rgn inc tbl = Inr tbl'"
  shows "map last_reset tbl' = map last_reset tbl"
proof -
  from update_quota_split[OF assms] obtain pre cur post u c where
    "tbl = pre @ cur # post"
    "tbl' = pre @ cur\<lparr>used_quota := Some (u + inc), request_count := Some (c + 1)\<rparr> # post"
    by blast
  then show ?thesis by simp
qed

lemma handler_preserves:
  assumes "quota_nonneg tbl" and "distinct (map region tbl)"
  shows "quota_nonneg (snd (lambda_handler clock bedrock ev tbl))
    \<and> last_reset_not_decreased tbl (snd (lambda_handler clock bedrock ev tbl))"
proof -
  let ?t1 = "snd (reset_loop clock 0 tbl tbl)"
  have n1: "quota_nonneg ?t1" by (rule reset_loop_nonneg[OF assms(1)])
  have "\<forall>e\<in>set tbl. \<exists>cur. stored tbl (region e) = Some cur \<and> last_reset cur = last_reset e"
    using stored_distinct[OF assms(2)] by blast
  then have m1: "last_reset_not_decreased tbl ?t1"
    using reset_loop_mono[OF assms(2), of tbl clock 0] by blast
  from handler_table_cases[of clock bedrock ev tbl] show ?thesis
  proof (elim disjE exE)
    assume "snd (lambda_handler clock bedrock ev tbl) = tbl"
    then show ?thesis using assms(1) last_reset_not_decreased_refl by simp
  next
    assume "snd (lambda_handler clock bedrock ev tbl) = ?t1"
    then show ?thesis using n1 m1 by simp
  next
    fix rgn
    assume u: "update_quota rgn 1 ?t1 = Inr (snd (lambda_handler clock bedrock ev tbl))"
    have "quota_nonneg (snd (lambda_handler clock bedrock ev tbl))"
      using update_quota_nonneg[OF n1 _ u] by simp
    moreover have "last_reset_not_decreased tbl (snd (lambda_handler clock bedrock ev tbl))"
      using last_reset_not_decreased_trans[OF m1 update_quota_mono[OF u]] .
    ultimately show ?thesis by simp
  qed
qed

text \<open>
  C8, as amended. The reset keeps every stored \<^verbatim>\<open>used_quota\<close> non-negative, always.
  The usage increment keeps it for a non-negative amount (the handler adds 1), and never
  touches \<^verbatim>\<open>last_reset\<close>. The reset does not move a stored \<^verbatim>\<open>last_reset\<close> backwards when
  it is decided on a copy that carries the stored \<^verbatim>\<open>last_reset\<close>. Every copy of a scan
  does, so every call of the handler on a table with one item per region (\<^verbatim>\<open>region\<close> is
  the key of the table) preserves both.
\<close>

theorem core_operations_preserve_invariant:
  "(quota_nonneg tbl \<longrightarrow> quota_nonneg (snd (reset_if_needed now e tbl)))
   \<and> (stored tbl (region e) = Some cur \<and> last_reset cur = last_reset e \<longrightarrow>
        last_reset_not_decreased tbl (snd (reset_if_needed now e tbl)))
   \<and> (quota_nonneg tbl \<and> 0 \<le> inc \<and> update_quota rgn inc tbl = Inr tbl' \<longrightarrow>
        quota_nonneg tbl')
   \<and> (update_quota rgn inc tbl = Inr tbl' \<longrightarrow>
        map last_reset tbl' = map last_reset tbl \<and> last_reset_not_decreased tbl tbl')
   \<and> (quota_nonneg tbl \<and> distinct (map region tbl) \<longrightarrow>
        quota_nonneg (snd (lambda_handler clock bedrock ev tbl))
        \<and> last_reset_not_decreased tbl (snd (lambda_handler clock bedrock ev tbl)))"
  using reset_if_needed_nonneg[of tbl now e] reset_if_needed_mono[of tbl e cur now]
    update_quota_nonneg[of tbl inc rgn tbl'] update_quota_mono[of rgn inc tbl tbl']
    update_quota_last_reset[of rgn inc tbl tbl'] handler_preserves[of tbl clock bedrock ev]
  by blast

text \<open>
  The theorem on a table of two regions: a reset of \<^verbatim>\<open>us-west-2\<close> at time 130, an
  increment of it by 1, and a whole call at time 130.
\<close>

theorem core_operations_preserve_invariant_witness:
  "quota_nonneg [item ''us-east-1'' 10 10 125 7, item ''us-west-2'' 10 3 0 7]
   \<and> distinct (map region [item ''us-east-1'' 10 10 125 7, item ''us-west-2'' 10 3 0 7])
   \<and> stored [item ''us-east-1'' 10 10 125 7, item ''us-west-2'' 10 3 0 7]
        (region (item ''us-west-2'' 10 3 0 7)) = Some (item ''us-west-2'' 10 3 0 7)
   \<and> (0::int) \<le> 1
   \<and> update_quota ''us-west-2'' 1 [item ''us-east-1'' 10 10 125 7, item ''us-west-2'' 10 3 0 7]
       = Inr [item ''us-east-1'' 10 10 125 7, item ''us-west-2'' 10 4 0 8]
   \<and> quota_nonneg [item ''us-east-1'' 10 10 125 7, item ''us-west-2'' 10 4 0 8]
   \<and> quota_nonneg (snd (reset_if_needed 130 (item ''us-west-2'' 10 3 0 7)
        [item ''us-east-1'' 10 10 125 7, item ''us-west-2'' 10 3 0 7]))
   \<and> last_reset_not_decreased [item ''us-east-1'' 10 10 125 7, item ''us-west-2'' 10 3 0 7]
       (snd (reset_if_needed 130 (item ''us-west-2'' 10 3 0 7)
        [item ''us-east-1'' 10 10 125 7, item ''us-west-2'' 10 3 0 7]))
   \<and> quota_nonneg (snd (lambda_handler (\<lambda>i. 130) (\<lambda>r p. Result ''ok'')
        (BodyJson (JObject [(''prompt'', JString ''hi'')]))
        [item ''us-east-1'' 10 10 125 7, item ''us-west-2'' 10 3 0 7]))
   \<and> last_reset_not_decreased [item ''us-east-1'' 10 10 125 7, item ''us-west-2'' 10 3 0 7]
       (snd (lambda_handler (\<lambda>i. 130) (\<lambda>r p. Result ''ok'')
        (BodyJson (JObject [(''prompt'', JString ''hi'')]))
        [item ''us-east-1'' 10 10 125 7, item ''us-west-2'' 10 3 0 7]))"
  using core_operations_preserve_invariant[of
      "[item ''us-east-1'' 10 10 125 7, item ''us-west-2'' 10 3 0 7]" 130
      "item ''us-west-2'' 10 3 0 7" "item ''us-west-2'' 10 3 0 7" 1 "''us-west-2''"
      "[item ''us-east-1'' 10 10 125 7, item ''us-west-2'' 10 4 0 8]"
      "\<lambda>i. 130" "\<lambda>r p. Result ''ok''" "BodyJson (JObject [(''prompt'', JString ''hi'')])"]
  by (simp add: handler_defs quota_nonneg_def decimal_sub_exact)

text \<open>
  C8 as stated fails on both counts. A reset decided at time 119 on a stale copy (last
  reset read as 59) against a store that another caller has reset at 120 writes 119: the
  stored \<^verbatim>\<open>last_reset\<close> goes down. And the usage increment with the amount -5 takes a
  \<^verbatim>\<open>used_quota\<close> of 3 to -2.
\<close>

theorem invariant_not_preserved_counterexample:
  "snd (reset_if_needed 119 (item ''us-east-1'' 10 9 59 9) [item ''us-east-1'' 10 0 120 20])
     = [item ''us-east-1'' 10 0 119 20]
   \<and> \<not> last_reset_not_decreased [item ''us-east-1'' 10 0 120 20]
       (snd (reset_if_needed 119 (item ''us-east-1'' 10 9 59 9) [item ''us-east-1'' 10 0 120 20]))
   \<and> quota_nonneg [item ''us-east-1'' 10 3 0 7]
   \<and> update_quota ''us-east-1'' (- 5) [item ''us-east-1'' 10 3 0 7]
       = Inr [item ''us-east-1'' 10 (- 2) 0 8]
   \<and> \<not> quota_nonneg [item ''us-east-1'' 10 (- 2) 0 8]"
  by (simp add: reset_if_needed_def should_reset_def floordiv_60_def get_last_reset_def
      last_reset_not_decreased_def number_value_def quota_nonneg_def update_quota_def stored_def)

section \<open>Requests that are turned away\<close>

text \<open>
  A request without a \<^verbatim>\<open>"body"\<close> key, with a body on which \<^verbatim>\<open>json.loads\<close> raises a
  \<^verbatim>\<open>ValueError\<close>, or with a JSON object whose prompt is missing or falsy is answered with
  400. Whenever the prompt cannot be read or is falsy, the table is returned as it was
  given.
\<close>

lemma bad_request_rejected:
  assumes "ev = BodyAbsent \<or> ev = BodyMalformed
     \<or> (\<exists>kvs. ev = BodyJson (JObject kvs)
           \<and> (case map_of kvs ''prompt'' of None \<Rightarrow> True | Some p \<Rightarrow> \<not> truthy p))"
  shows "\<exists>msg. lambda_handler clock bedrock ev tbl
           = (Inr \<lparr>statusCode = 400, body = Text msg\<rparr>, tbl)"
  using assms
  by (auto simp: lambda_handler_def read_prompt_def json_loads_body_def get_prompt_def
      split: option.splits)

lemma rejected_before_store:
  assumes "read_prompt ev = Inl err \<or> (\<exists>p. read_prompt ev = Inr p \<and> \<not> truthy p)"
  shows "snd (lambda_handler clock bedrock ev tbl) = tbl"
  using assms
  by (auto simp: lambda_handler_def split: error.splits)

text \<open>
  C10 asks for status 400 on every event whose body is not valid JSON or whose prompt is
  missing. The handler does not deliver it on three such events: a body that parses to
  a JSON array (\<^verbatim>\<open>"[]"\<close>) or to \<^verbatim>\<open>null\<close> carries no prompt, and \<^verbatim>\<open>body.get\<close> raises
  \<^verbatim>\<open>AttributeError\<close>; a body that is \<^verbatim>\<open>None\<close> makes \<^verbatim>\<open>json.loads\<close> raise \<^verbatim>\<open>TypeError\<close>.
  Neither is among the exceptions the handler turns into the 400 answer, so the exception
  leaves the handler. The table is untouched in all three.
\<close>

theorem non_object_body_not_rejected:
  "lambda_handler clock bedrock (BodyJson (JArray [])) tbl = (Inl AttributeError, tbl)
   \<and> lambda_handler clock bedrock (BodyJson JNull) tbl = (Inl AttributeError, tbl)
   \<and> lambda_handler clock bedrock BodyNull tbl = (Inl TypeError, tbl)"
  by (simp add: lambda_handler_def read_prompt_def json_loads_body_def get_prompt_def)

end
